theory Spec2Isabelle
  imports Complex_Main "HOL-Library.Sublist" "HOL-Library.Log_Nat"
begin

section \<open>Data model of \<^verbatim>\<open>plop/collector.py\<close>\<close>

text \<open>
  A captured frame is the Python tuple \<^verbatim>\<open>(co_filename, co_firstlineno, co_name)\<close>; a
  captured stack is the list of these tuples, innermost call first. A finite Python
  float is the rational it denotes. The one float operation whose result a claim depends
  on, the quotient \<^verbatim>\<open>duration / self.interval\<close> of \<^verbatim>\<open>start\<close>, is rounded as IEEE 754
  binary64 division rounds it (\<open>round_double\<close> below). The sums kept in
  \<^verbatim>\<open>sample_time\<close> and the two overhead figures of the final message, which no claim
  reads, are kept exact. Infinities and NaN are not values of \<^verbatim>\<open>interval\<close> or
  \<^verbatim>\<open>duration\<close>.
\<close>

type_synonym Frame = "string \<times> int \<times> string"
type_synonym Stack = "Frame list"

text \<open>The interpreter's code and frame objects, with the attributes the handler reads
  and the current line \<^verbatim>\<open>f_lineno\<close>, which it does not read.\<close>

record code =
  co_filename :: string
  co_firstlineno :: int
  co_name :: string

datatype frame = PyFrame (f_code: code) (f_lineno: int) (f_back: "frame option")

datatype error = AssertionError | ZeroDivisionError | OverflowError

datatype itimer = ITIMER_REAL | ITIMER_VIRTUAL | ITIMER_PROF
datatype signal = SIGALRM | SIGVTALRM | SIGPROF

text \<open>The keys of \<^verbatim>\<open>Collector.MODES\<close>. The constructor asserts that the mode is one of
  them, and nothing assigns \<^verbatim>\<open>self.mode\<close> afterwards, so the attribute is this enum.\<close>

datatype mode = Prof | Virtual | Real

definition mode_of_name :: "string \<Rightarrow> mode option" where
  "mode_of_name name =
     (if name = ''prof'' then Some Prof
      else if name = ''virtual'' then Some Virtual
      else if name = ''real'' then Some Real
      else None)"

fun MODES :: "mode \<Rightarrow> itimer \<times> signal" where
  "MODES Prof = (ITIMER_PROF, SIGPROF)"
| "MODES Virtual = (ITIMER_VIRTUAL, SIGVTALRM)"
| "MODES Real = (ITIMER_REAL, SIGALRM)"

text \<open>The attributes of a \<^verbatim>\<open>Collector\<close>, together with the interval timers of the
  process it runs in (\<open>itimers\<close>: for each timer its current value and its period, as
  \<^verbatim>\<open>setitimer(2)\<close> keeps them).\<close>

record collector =
  interval :: rat
  mode :: mode
  stacks :: "Stack list"
  samples_remaining :: int
  stopping :: bool
  stopped :: bool
  samples_taken :: int
  sample_time :: rat
  itimers :: "itimer \<Rightarrow> rat \<times> rat"

text \<open>Modelled from the spec: \<^verbatim>\<open>platform.setitimer\<close> (module \<^verbatim>\<open>plop.platform\<close>), the
  TimerDriver of the specification. Arming replaces the prior schedule of that timer;
  a zero value disarms it and cancels future deliveries.\<close>

definition setitimer :: "itimer \<Rightarrow> rat \<Rightarrow> rat \<Rightarrow> collector \<Rightarrow> collector" where
  "setitimer timer seconds period s = s\<lparr>itimers := (itimers s)(timer := (seconds, period))\<rparr>"

definition armed :: "collector \<Rightarrow> bool" where
  "armed s = (fst (itimers s (fst (MODES (mode s)))) \<noteq> 0)"

section \<open>The collector\<close>

definition reset :: "collector \<Rightarrow> collector" where
  "reset s = s\<lparr>stacks := [], samples_remaining := 0, stopping := False, stopped := False,
               samples_taken := 0, sample_time := 0\<rparr>"

text \<open>\<^verbatim>\<open>Collector.__init__\<close>: the process's timers are those found at construction.
  Installing \<^verbatim>\<open>self.handler\<close> for the mode's signal is what makes \<open>handler\<close> run at
  each delivery (\<open>deliver\<close> and \<open>wait\<close> below).\<close>

definition Collector_init :: "(itimer \<Rightarrow> rat \<times> rat) \<Rightarrow> rat \<Rightarrow> string \<Rightarrow> error + collector" where
  "Collector_init timers interval_arg mode_arg =
     (case mode_of_name mode_arg of
        None \<Rightarrow> Inl AssertionError
      | Some m \<Rightarrow>
          Inr (reset \<lparr>interval = interval_arg, mode = m, stacks = [], samples_remaining = 0,
                      stopping = False, stopped = False, samples_taken = 0, sample_time = 0,
                      itimers = timers\<rparr>))"

text \<open>Python's \<^verbatim>\<open>int(x)\<close> on a float truncates towards zero.\<close>

definition py_int :: "rat \<Rightarrow> int" where
  "py_int q = (if 0 \<le> q then \<lfloor>q\<rfloor> else \<lceil>q\<rceil>)"

text \<open>The result of a float operation: a finite double, or an infinity (of either sign).\<close>

datatype pyfloat = Finite rat | Infinity

text \<open>The argument \<^verbatim>\<open>duration\<close>: a Python int (as \<^verbatim>\<open>main\<close> passes it, parsed with
  \<^verbatim>\<open>type=int\<close>) or a float (as the default \<^verbatim>\<open>30.0\<close>). \<^verbatim>\<open>self.interval\<close> is a float, as
  the constructor's default and \<^verbatim>\<open>main\<close> (\<^verbatim>\<open>type=float\<close>) make it.\<close>

datatype number = PyInt int | PyFloat rat

definition pow2 :: "int \<Rightarrow> rat" where
  "pow2 p = (if 0 \<le> p then 2 ^ nat p else 1 / 2 ^ nat (- p))"

text \<open>For \<open>a > 0\<close>, the exponent \<open>e\<close> with \<^verbatim>\<open>2^e <= a < 2^(e+1)\<close>.\<close>

definition ilog2 :: "rat \<Rightarrow> int" where
  "ilog2 a = (if 1 \<le> a then bitlen \<lfloor>a\<rfloor> - 1 else - bitlen (\<lceil>1 / a\<rceil> - 1))"

definition round_half_even :: "rat \<Rightarrow> int" where
  "round_half_even x =
     (let f = \<lfloor>x\<rfloor>; r = x - of_int f
      in if r < 1 / 2 then f else if 1 / 2 < r then f + 1 else if even f then f else f + 1)"

text \<open>Rounding of an exact result to binary64, to nearest, ties to even: 53 significant
  bits, the unit in the last place never below \<^verbatim>\<open>2^-1074\<close> (subnormals), and infinity
  from \<^verbatim>\<open>2^1024\<close> on.\<close>

definition round_double :: "rat \<Rightarrow> pyfloat" where
  "round_double q =
     (if q = 0 then Finite 0
      else
        let a = \<bar>q\<bar>;
            p = max (ilog2 a - 52) (- 1074);
            v = of_int (round_half_even (a / pow2 p)) * pow2 p
        in if pow2 1024 \<le> v then Infinity else Finite (sgn q * v))"

text \<open>The operand conversion of the division: an int too large for a double raises.\<close>

definition as_float :: "number \<Rightarrow> error + rat" where
  "as_float x =
     (case x of
        PyFloat q \<Rightarrow> Inr q
      | PyInt n \<Rightarrow>
          (case round_double (of_int n) of
             Infinity \<Rightarrow> Inl OverflowError
           | Finite q \<Rightarrow> Inr q))"

text \<open>Python's float division: a zero divisor raises; an overflowing quotient is an
  infinity, without an exception.\<close>

definition float_div :: "rat \<Rightarrow> rat \<Rightarrow> error + pyfloat" where
  "float_div a b = (if b = 0 then Inl ZeroDivisionError else Inr (round_double (a / b)))"

text \<open>\<^verbatim>\<open>int(x)\<close> on a float result: an infinity raises.\<close>

definition int_of_float :: "pyfloat \<Rightarrow> error + int" where
  "int_of_float x = (case x of Finite q \<Rightarrow> Inr (py_int q) | Infinity \<Rightarrow> Inl OverflowError)"

text \<open>The expression \<^verbatim>\<open>int(duration / self.interval)\<close>.\<close>

definition budget :: "number \<Rightarrow> rat \<Rightarrow> error + int" where
  "budget duration interval_arg =
     (case as_float duration of
        Inl e \<Rightarrow> Inl e
      | Inr a \<Rightarrow>
          (case float_div a interval_arg of
             Inl e \<Rightarrow> Inl e
           | Inr q \<Rightarrow> int_of_float q))"

text \<open>\<^verbatim>\<open>Collector.start\<close>. The only statement that can raise is the assignment of the
  budget; the two flags are already cleared then, so the error carries the collector as
  the exception leaves it.\<close>

definition start :: "number \<Rightarrow> collector \<Rightarrow> (error \<times> collector) + collector" where
  "start duration s =
     (let s1 = s\<lparr>stopping := False\<rparr>;
          s2 = s1\<lparr>stopped := False\<rparr>
      in case budget duration (interval s2) of
           Inl e \<Rightarrow> Inl (e, s2)
         | Inr n \<Rightarrow>
             let s3 = s2\<lparr>samples_remaining := n\<rparr>;
                 (timer, sig) = MODES (mode s3)
             in Inr (setitimer timer (interval s3) (interval s3) s3))"

text \<open>One delivery of the timer signal: the two readings of \<^verbatim>\<open>time.time()\<close>, the
  interrupted thread and its frame, and the items of \<^verbatim>\<open>sys._current_frames()\<close> in
  the order the loop visits them.\<close>

record tick =
  t_start :: rat
  t_end :: rat
  current_tid :: int
  current_frame :: "frame option"
  current_frames :: "(int \<times> frame) list"

text \<open>The inner \<^verbatim>\<open>while frame is not None\<close> loop.\<close>

fun walk :: "frame option \<Rightarrow> Stack" where
  "walk None = []"
| "walk (Some (PyFrame c l back)) = (co_filename c, co_firstlineno c, co_name c) # walk back"

text \<open>The body of the \<^verbatim>\<open>for tid, frame in ...\<close> loop.\<close>

definition capture :: "tick \<Rightarrow> collector \<Rightarrow> int \<times> frame \<Rightarrow> collector" where
  "capture t s item =
     (let frame = (if fst item = current_tid t then current_frame t else Some (snd item))
      in s\<lparr>stacks := stacks s @ [walk frame]\<rparr>)"

definition handler :: "tick \<Rightarrow> collector \<Rightarrow> collector" where
  "handler t s =
     (let s1 = s\<lparr>samples_remaining := samples_remaining s - 1\<rparr>
      in if samples_remaining s1 \<le> 0 \<or> stopping s1 then
           (setitimer (fst (MODES (mode s1))) 0 0 s1)\<lparr>stopped := True\<rparr>
         else
           let s2 = foldl (capture t) s1 (current_frames t);
               s3 = s2\<lparr>samples_taken := samples_taken s2 + 1\<rparr>
           in s3\<lparr>sample_time := sample_time s3 + (t_end t - t_start t)\<rparr>)"

text \<open>\<^verbatim>\<open>Collector.wait\<close> spins until \<^verbatim>\<open>stopped\<close>; the only thing that can change the flag
  while it spins is the handler, run once for each signal the armed timer delivers. The
  list holds the deliveries still to come. \<open>None\<close> is the loop that never exits:
  the flag is clear and the timer is disarmed, or no delivery is left.\<close>

fun wait :: "tick list \<Rightarrow> collector \<Rightarrow> (collector \<times> tick list) option" where
  "wait [] s = (if stopped s then Some (s, []) else None)"
| "wait (t # ts) s =
     (if stopped s then Some (s, t # ts)
      else if armed s then wait ts (handler t s)
      else None)"

definition stop :: "tick list \<Rightarrow> collector \<Rightarrow> (collector \<times> tick list) option" where
  "stop ts s = wait ts (s\<lparr>stopping := True\<rparr>)"

text \<open>Signals that arrive while the profiled program runs: the handler runs for each
  one delivered while the timer is armed.\<close>

definition deliver :: "collector \<Rightarrow> tick \<Rightarrow> collector" where
  "deliver s t = (if armed s then handler t s else s)"

definition run_ticks :: "tick list \<Rightarrow> collector \<Rightarrow> collector" where
  "run_ticks ts s = foldl deliver s ts"

text \<open>The profiling session of \<^verbatim>\<open>main\<close>: \<^verbatim>\<open>collector.start(duration)\<close>, the profiled
  program (during which the signals \<open>during\<close> arrive), then \<^verbatim>\<open>collector.stop()\<close> (which
  has the signals \<open>after\<close> ahead of it). \<open>Inl\<close> is the exception of \<^verbatim>\<open>start\<close>,
  \<open>Inr None\<close> a \<^verbatim>\<open>stop\<close> that never returns.\<close>

definition session :: "number \<Rightarrow> tick list \<Rightarrow> tick list \<Rightarrow> collector \<Rightarrow> error + collector option" where
  "session duration during after s =
     (case start duration s of
        Inl (e, s') \<Rightarrow> Inl e
      | Inr s1 \<Rightarrow> Inr (map_option fst (stop after (run_ticks during s1))))"

section \<open>Formatters\<close>

text \<open>A Python dict is an association list with distinct keys. \<^verbatim>\<open>d[k] += 1\<close> on a
  \<^verbatim>\<open>defaultdict(int)\<close> adds one to the entry of \<open>k\<close>, creating it from 0 when absent.\<close>

fun incr :: "'k \<Rightarrow> ('k \<times> int) list \<Rightarrow> ('k \<times> int) list" where
  "incr k [] = [(k, 0 + 1)]"
| "incr k ((k', c) # d) = (if k = k' then (k', c + 1) # d else (k', c) # incr k d)"

text \<open>The first loop of \<^verbatim>\<open>PlopFormatter.format\<close>.\<close>

definition aggregate :: "Stack list \<Rightarrow> (Stack \<times> int) list" where
  "aggregate store = foldl (\<lambda>stack_counts frames. incr frames stack_counts) [] store"

text \<open>\<^verbatim>\<open>d[k]\<close> on the \<^verbatim>\<open>defaultdict(int)\<close>: 0 for an absent key.\<close>

definition count_of :: "('k \<times> int) list \<Rightarrow> 'k \<Rightarrow> int" where
  "count_of d k = (case map_of d k of None \<Rightarrow> 0 | Some c \<Rightarrow> c)"

text \<open>\<^verbatim>\<open>xs[:k]\<close>: a negative bound counts from the end.\<close>

definition py_slice_to :: "int \<Rightarrow> 'a list \<Rightarrow> 'a list" where
  "py_slice_to k xs = (if 0 \<le> k then take (nat k) xs else take (length xs - nat (- k)) xs)"

record PlopFormatter =
  max_stacks :: int

text \<open>\<^verbatim>\<open>PlopFormatter.__init__\<close> stores the constant 50, whatever its argument.\<close>

definition PlopFormatter_init :: "int \<Rightarrow> PlopFormatter" where
  "PlopFormatter_init max_stacks_arg = \<lparr>max_stacks = 50\<rparr>"

text \<open>\<^verbatim>\<open>PlopFormatter.format\<close>, up to the final \<^verbatim>\<open>repr\<close>: the dictionary \<^verbatim>\<open>stack_counts\<close>
  that is rendered. \<^verbatim>\<open>sorted\<close> is stable, as \<open>sort_key\<close> is; the order in which
  \<^verbatim>\<open>iteritems\<close> yields the entries is the order of the association list.\<close>

definition PlopFormatter_format :: "PlopFormatter \<Rightarrow> collector \<Rightarrow> (Stack \<times> int) list" where
  "PlopFormatter_format self s =
     py_slice_to (max_stacks self) (sort_key (\<lambda>kv. - snd kv) (aggregate (stacks s)))"

text \<open>Decimal rendering of an integer (\<^verbatim>\<open>%d\<close>, and \<^verbatim>\<open>{0[1]}\<close> on an int).\<close>

definition digit :: "nat \<Rightarrow> char" where
  "digit n = ''0123456789'' ! n"

fun decimal :: "nat \<Rightarrow> string \<Rightarrow> string" where
  "decimal n acc =
     (if n div 10 = 0 then digit n # acc else decimal (n div 10) (digit (n mod 10) # acc))"

definition py_str_int :: "int \<Rightarrow> string" where
  "py_str_int i = (if 0 \<le> i then decimal (nat i) [] else CHR ''-'' # decimal (nat (- i)) [])"

text \<open>\<^verbatim>\<open>"{0[2]} ({0[0]}:{0[1]})".format\<close> applied to a frame tuple.\<close>

definition format_frame :: "Frame \<Rightarrow> string" where
  "format_frame f =
     (case f of (filename, lineno, name) \<Rightarrow>
        name @ '' ('' @ filename @ '':'' @ py_str_int lineno @ '')'')"

fun join :: "string \<Rightarrow> string list \<Rightarrow> string" where
  "join sep [] = []"
| "join sep [x] = x"
| "join sep (x # y # ys) = x @ sep @ join sep (y # ys)"

definition format_flame :: "Stack \<Rightarrow> string" where
  "format_flame stack = join '';'' (map format_frame (rev stack))"

text \<open>\<^verbatim>\<open>"%s %d\n" % (previous, previous_count)\<close>; \<^verbatim>\<open>%s\<close> renders \<^verbatim>\<open>None\<close> as the word.\<close>

definition flame_line :: "string option \<Rightarrow> int \<Rightarrow> string" where
  "flame_line previous previous_count =
     (case previous of None \<Rightarrow> ''None'' | Some p \<Rightarrow> p) @ '' '' @ py_str_int previous_count
       @ [CHR 0x0A]"

text \<open>The body of the loop of \<^verbatim>\<open>FlamegraphFormatter.format\<close>, on the variables
  \<^verbatim>\<open>(output, previous, previous_count)\<close>.\<close>

definition flame_step :: "string \<times> string option \<times> int \<Rightarrow> Stack \<Rightarrow> string \<times> string option \<times> int" where
  "flame_step vars stack =
     (case vars of (output, previous, previous_count) \<Rightarrow>
        let current = format_flame stack
        in if Some current = previous then (output, previous, previous_count + 1)
           else (output @ flame_line previous previous_count, Some current, 1))"

definition FlamegraphFormatter_format :: "collector \<Rightarrow> string" where
  "FlamegraphFormatter_format s =
     (case foldl flame_step ([], None, 1) (stacks s) of
        (output, previous, previous_count) \<Rightarrow> output @ flame_line previous previous_count)"

datatype formatter = Plop PlopFormatter | Flamegraph

text \<open>What is written to the file: the table (whose \<^verbatim>\<open>repr\<close> is the text written) or
  the folded-stack text.\<close>

datatype content = Table "(Stack \<times> int) list" | Text string

fun format :: "formatter \<Rightarrow> collector \<Rightarrow> content" where
  "format (Plop self) s = Table (PlopFormatter_format self s)"
| "format Flamegraph s = Text (FlamegraphFormatter_format s)"

section \<open>The end of \<^verbatim>\<open>main\<close>\<close>

text \<open>The effects of \<^verbatim>\<open>main\<close> after \<^verbatim>\<open>collector.stop()\<close>: the files written by
  \<^verbatim>\<open>formatter.store\<close>, the messages passed to \<^verbatim>\<open>print_msg\<close> with their
  \<^verbatim>\<open>to_syslog\<close> flag, and the exception raised, if any. The overhead message carries the
  two numbers it formats.\<close>

datatype message = Line string | Overhead rat rat

record report =
  written :: "(string \<times> content) list"
  printed :: "(bool \<times> message) list"
  raised :: "error option"

definition main_report :: "formatter \<Rightarrow> string \<Rightarrow> bool \<Rightarrow> collector \<Rightarrow> report" where
  "main_report fmt filename to_syslog s =
     (if samples_taken s \<noteq> 0 then
        let msg = ''profile output saved to '' @ filename;
            overhead = sample_time s / of_int (samples_taken s);
            saved = [(to_syslog, Line msg), (to_syslog, Line msg)]
        in if interval s = 0 then
             \<lparr>written = [(filename, format fmt s)], printed = saved,
              raised = Some ZeroDivisionError\<rparr>
           else
             \<lparr>written = [(filename, format fmt s)],
              printed = saved @ [(to_syslog, Overhead overhead (overhead / interval s))],
              raised = None\<rparr>
      else
        \<lparr>written = [],
         printed = [(to_syslog, Line ''no samples collected; program was too fast'')],
         raised = None\<rparr>)"

section \<open>Reachable collector states\<close>

text \<open>The states a collector passes through: constructed, then any sequence of
  \<^verbatim>\<open>reset\<close>, \<^verbatim>\<open>start\<close> (returning or raising), the first statement of \<^verbatim>\<open>stop\<close>, and
  runs of the handler.\<close>

inductive reachable :: "collector \<Rightarrow> bool" where
  constructed: "Collector_init timers i m = Inr s \<Longrightarrow> reachable s"
| after_reset: "reachable s \<Longrightarrow> reachable (reset s)"
| after_start: "reachable s \<Longrightarrow> start d s = Inr s' \<Longrightarrow> reachable s'"
| after_failed_start: "reachable s \<Longrightarrow> start d s = Inl (e, s') \<Longrightarrow> reachable s'"
| stop_requested: "reachable s \<Longrightarrow> reachable (s\<lparr>stopping := True\<rparr>)"
| after_handler: "reachable s \<Longrightarrow> reachable (handler t s)"

text \<open>The Running state of the specification: started, timer armed, no stop requested.\<close>

definition Running :: "collector \<Rightarrow> bool" where
  "Running s = (armed s \<and> \<not> stopping s \<and> \<not> stopped s)"

text \<open>Two frame chains that run the same functions, whatever line each frame is at.\<close>

fun same_code :: "frame option \<Rightarrow> frame option \<Rightarrow> bool" where
  "same_code None None = True"
| "same_code (Some (PyFrame c l back)) (Some (PyFrame c' l' back')) =
     (c = c' \<and> same_code back back')"
| "same_code None (Some g) = False"
| "same_code (Some f) None = False"

text \<open>Two signal deliveries that differ at most in the lines the frames are at.\<close>

definition same_code_tick :: "tick \<Rightarrow> tick \<Rightarrow> bool" where
  "same_code_tick t t' =
     (t_start t = t_start t' \<and> t_end t = t_end t' \<and> current_tid t = current_tid t' \<and>
      same_code (current_frame t) (current_frame t') \<and>
      list_all2 (\<lambda>item item'. fst item = fst item' \<and> same_code (Some (snd item)) (Some (snd item')))
        (current_frames t) (current_frames t'))"

section \<open>Concrete inputs\<close>

definition codeA :: code where
  "codeA = \<lparr>co_filename = ''a.py'', co_firstlineno = 1, co_name = ''f''\<rparr>"

definition stackA :: Stack where
  "stackA = [(''a.py'', 1, ''f'')]"

definition stackB :: Stack where
  "stackB = [(''a.py'', 7, ''g'')]"

definition no_timers :: "itimer \<Rightarrow> rat \<times> rat" where
  "no_timers = (\<lambda>_. (0, 0))"

text \<open>A collector as \<^verbatim>\<open>Collector(interval=0.5, mode='prof')\<close> constructs it.\<close>

definition collector0 :: collector where
  "collector0 = \<lparr>interval = 1 / 2, mode = Prof, stacks = [], samples_remaining = 0,
                  stopping = False, stopped = False, samples_taken = 0, sample_time = 0,
                  itimers = no_timers\<rparr>"

definition with_stacks :: "Stack list \<Rightarrow> collector" where
  "with_stacks store = collector0\<lparr>stacks := store\<rparr>"

text \<open>A signal that interrupts the single thread 1 inside \<open>f\<close>, at line \<open>l\<close>.\<close>

definition tick_at :: "int \<Rightarrow> tick" where
  "tick_at l = \<lparr>t_start = 0, t_end = 0, current_tid = 1,
                current_frame = Some (PyFrame codeA l None),
                current_frames = [(1, PyFrame codeA l None)]\<rparr>"

text \<open>The same collector after \<^verbatim>\<open>start(1.5)\<close>: three samples left, timer armed.\<close>

definition running0 :: collector where
  "running0 = collector0\<lparr>samples_remaining := 3,
                          itimers := no_timers(ITIMER_PROF := (1 / 2, 1 / 2))\<rparr>"

text \<open>The running collector after \<^verbatim>\<open>stop()\<close> was called and the next signal arrived.\<close>

definition stopped0 :: collector where
  "stopped0 = handler (tick_at 3) (running0\<lparr>stopping := True\<rparr>)"

text \<open>A collector holding two samples, after a session.\<close>

definition sampled0 :: collector where
  "sampled0 = collector0\<lparr>stacks := [stackA, stackB], samples_taken := 2, stopping := True,
                           stopped := True\<rparr>"

declare decimal.simps [simp del]

text \<open>A collector constructed with \<^verbatim>\<open>interval=0.0\<close>.\<close>

definition unset0 :: collector where
  "unset0 = collector0\<lparr>interval := 0\<rparr>"

text \<open>The double nearest to 0.1, and the subnormal double nearest to 1e-320.\<close>

definition tenth :: rat where
  "tenth = 3602879701896397 / 2 ^ 55"

definition tiny :: rat where
  "tiny = 2024 / 2 ^ 1074"

section \<open>The float quotient\<close>

lemma bitlen_numeral:
  "bitlen (numeral (num.Bit0 k)) = bitlen (numeral k) + 1"
  "bitlen (numeral (num.Bit1 k)) = bitlen (numeral k) + 1"
  "bitlen 1 = 1"
  by (subst compute_bitlen, simp)+

lemma floor_rat_numeral:
  "\<lfloor>(numeral a :: rat) / numeral b\<rfloor> = numeral a div numeral b"
  using floor_divide_of_int_eq [of "numeral a" "numeral b", where ?'a = rat] by simp

lemma ceiling_rat_numeral:
  "\<lceil>(numeral a :: rat) / numeral b\<rceil> = - (- numeral a div numeral b)"
  using ceiling_divide_eq_div [of "numeral a" "numeral b", where ?'a = rat] by simp

lemma round_double_finiteI:
  assumes "q \<noteq> 0" and "ilog2 \<bar>q\<bar> = e" and "max (e - 52) (- 1074) = p"
    and "round_half_even (\<bar>q\<bar> / pow2 p) = m" and "of_int m * pow2 p < pow2 1024"
  shows "round_double q = Finite (sgn q * (of_int m * pow2 p))"
  using assms by (simp add: round_double_def Let_def)

lemma round_double_infiniteI:
  assumes "q \<noteq> 0" and "ilog2 \<bar>q\<bar> = e" and "max (e - 52) (- 1074) = p"
    and "round_half_even (\<bar>q\<bar> / pow2 p) = m" and "pow2 1024 \<le> of_int m * pow2 p"
  shows "round_double q = Infinity"
  using assms by (simp add: round_double_def Let_def)

lemma round_double_3: "round_double 3 = Finite 3"
  using round_double_finiteI [of 3 1 "- 51" 6755399441055744]
  by (simp add: ilog2_def bitlen_numeral round_half_even_def pow2_def)

lemma round_double_4: "round_double 4 = Finite 4"
  using round_double_finiteI [of 4 2 "- 50" 4503599627370496]
  by (simp add: ilog2_def bitlen_numeral round_half_even_def pow2_def)

lemma round_double_8: "round_double 8 = Finite 8"
  using round_double_finiteI [of 8 3 "- 49" 4503599627370496]
  by (simp add: ilog2_def bitlen_numeral round_half_even_def pow2_def)

lemma round_double_3600: "round_double 3600 = Finite 3600"
  using round_double_finiteI [of 3600 11 "- 41" 7916483719987200]
  by (simp add: ilog2_def bitlen_numeral ceiling_rat_numeral floor_rat_numeral
      round_half_even_def pow2_def)

lemma round_double_tenth: "round_double (1 / 10) = Finite tenth"
  using round_double_finiteI [of "1 / 10" "- 4" "- 56" 7205759403792794]
  by (simp add: ilog2_def bitlen_numeral ceiling_rat_numeral floor_rat_numeral
      round_half_even_def pow2_def tenth_def)

lemma round_double_one_by_tenth: "round_double (1 / tenth) = Finite 10"
  using round_double_finiteI [of "1 / tenth" 3 "- 49" 5629499534213120]
  by (simp add: ilog2_def bitlen_numeral ceiling_rat_numeral floor_rat_numeral
      round_half_even_def pow2_def tenth_def)

lemma round_double_overflow: "round_double (3600 / tiny) = Infinity"
  using round_double_infiniteI [of "3600 / tiny" 1074 1022 8010355068445546]
  by (simp add: ilog2_def bitlen_numeral ceiling_rat_numeral floor_rat_numeral
      round_half_even_def pow2_def tiny_def)

section \<open>The handler and the timer\<close>

lemma foldl_capture:
  "foldl (capture t) s xs =
     s\<lparr>stacks := stacks s @ map (\<lambda>item. walk (if fst item = current_tid t then current_frame t else Some (snd item))) xs\<rparr>"
  by (induction xs arbitrary: s) (simp_all add: capture_def)

lemma armed_setitimer:
  "armed (setitimer (fst (MODES (mode s))) v p s) = (v \<noteq> 0)"
  by (simp add: armed_def setitimer_def)

lemma handler_terminal:
  "samples_remaining s - 1 \<le> 0 \<or> stopping s \<Longrightarrow>
   handler t s = (setitimer (fst (MODES (mode s))) 0 0 (s\<lparr>samples_remaining := samples_remaining s - 1\<rparr>))\<lparr>stopped := True\<rparr>"
  by (auto simp add: handler_def Let_def)

lemma handler_capture:
  "\<not> (samples_remaining s - 1 \<le> 0 \<or> stopping s) \<Longrightarrow>
   handler t s = s\<lparr>samples_remaining := samples_remaining s - 1,
      stacks := stacks s @ map (\<lambda>item. walk (if fst item = current_tid t then current_frame t else Some (snd item))) (current_frames t),
      samples_taken := samples_taken s + 1,
      sample_time := sample_time s + (t_end t - t_start t)\<rparr>"
  by (simp add: handler_def Let_def foldl_capture)

lemma run_ticks_disarmed: "\<not> armed s \<Longrightarrow> run_ticks ts s = s"
  by (induction ts) (simp_all add: run_ticks_def deliver_def)

lemma run_ticks_Cons: "run_ticks (t # ts) s = run_ticks ts (deliver s t)"
  by (simp add: run_ticks_def)

lemma run_ticks_running:
  assumes "armed s" and "\<not> stopping s" and "\<not> stopped s"
  shows "(int (length ts) < max (samples_remaining s) 1 \<longrightarrow>
            samples_taken (run_ticks ts s) = samples_taken s + int (length ts) \<and>
            armed (run_ticks ts s) \<and> \<not> stopped (run_ticks ts s)) \<and>
         (max (samples_remaining s) 1 \<le> int (length ts) \<longrightarrow>
            samples_taken (run_ticks ts s) = samples_taken s + max (samples_remaining s - 1) 0 \<and>
            \<not> armed (run_ticks ts s) \<and> stopped (run_ticks ts s)) \<and>
         \<not> stopping (run_ticks ts s)"
  using assms
proof (induction ts arbitrary: s)
  case Nil
  then show ?case by (simp add: run_ticks_def)
next
  case (Cons t ts)
  show ?case
  proof (cases "samples_remaining s - 1 \<le> 0")
    case True
    with Cons.prems have h: "deliver s t = (setitimer (fst (MODES (mode s))) 0 0 (s\<lparr>samples_remaining := samples_remaining s - 1\<rparr>))\<lparr>stopped := True\<rparr>"
      by (simp add: deliver_def handler_terminal)
    have na: "\<not> armed (deliver s t)"
      unfolding h by (simp add: armed_def setitimer_def)
    have "run_ticks (t # ts) s = deliver s t"
      by (simp add: run_ticks_Cons run_ticks_disarmed na)
    with True Cons.prems na show ?thesis
      by (simp add: h setitimer_def)
  next
    case False
    with Cons.prems have h: "deliver s t = s\<lparr>samples_remaining := samples_remaining s - 1,
      stacks := stacks s @ map (\<lambda>item. walk (if fst item = current_tid t then current_frame t else Some (snd item))) (current_frames t),
      samples_taken := samples_taken s + 1,
      sample_time := sample_time s + (t_end t - t_start t)\<rparr>"
      by (simp add: deliver_def handler_capture)
    have a: "armed (deliver s t)" "\<not> stopping (deliver s t)" "\<not> stopped (deliver s t)"
      using Cons.prems unfolding h by (simp_all add: armed_def)
    note IH = Cons.IH [OF a]
    have r: "samples_remaining (deliver s t) = samples_remaining s - 1"
         "samples_taken (deliver s t) = samples_taken s + 1"
      unfolding h by simp_all
    from IH False show ?thesis
      unfolding run_ticks_Cons r by auto
  qed
qed

lemma stop_stopped: "stopped s \<Longrightarrow> stop ts s = Some (s\<lparr>stopping := True\<rparr>, ts)"
  by (cases ts) (simp_all add: stop_def)

lemma stop_armed:
  "\<not> stopped s \<Longrightarrow> armed s \<Longrightarrow>
   stop (t # ts) s =
     Some ((setitimer (fst (MODES (mode s))) 0 0
             (s\<lparr>stopping := True, samples_remaining := samples_remaining s - 1\<rparr>))\<lparr>stopped := True\<rparr>, ts)"
  by (cases ts) (simp_all add: stop_def armed_def handler_terminal setitimer_def)

lemma py_int_floor: "0 \<le> q \<Longrightarrow> py_int q = \<lfloor>q\<rfloor>"
  by (simp add: py_int_def)

lemma budget_nonzero: "budget d i = Inr n \<Longrightarrow> i \<noteq> 0"
  by (auto simp add: budget_def float_div_def split: sum.splits if_splits)

lemma budget_float:
  "i \<noteq> 0 \<Longrightarrow> round_double (D / i) = Finite q \<Longrightarrow> budget (PyFloat D) i = Inr (py_int q)"
  by (simp add: budget_def as_float_def float_div_def int_of_float_def)

lemma budget_overflow:
  "i \<noteq> 0 \<Longrightarrow> round_double (D / i) = Infinity \<Longrightarrow> budget (PyFloat D) i = Inl OverflowError"
  by (simp add: budget_def as_float_def float_div_def int_of_float_def)

lemma budget_zero: "budget (PyFloat D) 0 = Inl ZeroDivisionError"
  by (simp add: budget_def as_float_def float_div_def)

lemma start_ok:
  "budget d (interval s) = Inr n \<Longrightarrow>
   start d s = Inr (setitimer (fst (MODES (mode s))) (interval s) (interval s)
                     (s\<lparr>stopping := False, stopped := False, samples_remaining := n\<rparr>))"
  by (simp add: start_def Let_def split: prod.splits)

lemma start_raises:
  "budget d (interval s) = Inl e \<Longrightarrow>
   start d s = Inl (e, s\<lparr>stopping := False, stopped := False\<rparr>)"
  by (simp add: start_def Let_def)

lemma session_samples:
  assumes "budget D (interval s) = Inr N"
    and "after \<noteq> [] \<or> max N 1 \<le> int (length during)"
  shows "\<exists>s2. session D during after s = Inr (Some s2) \<and> stopped s2 \<and>
           samples_taken s2 = samples_taken s + min (int (length during)) (max (N - 1) 0)"
proof -
  define s1 where "s1 = setitimer (fst (MODES (mode s))) (interval s) (interval s)
                     (s\<lparr>stopping := False, stopped := False, samples_remaining := N\<rparr>)"
  have st: "start D s = Inr s1"
    using assms(1) by (simp add: start_ok s1_def)
  from assms(1) have nz: "interval s \<noteq> 0" by (rule budget_nonzero)
  have s1: "armed s1" "\<not> stopping s1" "\<not> stopped s1"
       "samples_remaining s1 = N" "samples_taken s1 = samples_taken s"
    using nz by (simp_all add: s1_def armed_def setitimer_def)
  note R = run_ticks_running [OF s1(1-3), of during, unfolded s1(4,5)]
  define s' where "s' = run_ticks during s1"
  show ?thesis
  proof (cases "int (length during) < max N 1")
    case True
    with R have a: "samples_taken s' = samples_taken s + int (length during)"
      "armed s'" "\<not> stopped s'"
      unfolding s'_def by linarith+
    from True assms(2) obtain t ts where af: "after = t # ts"
      by (cases after) auto
    have "stop after s' = Some ((setitimer (fst (MODES (mode s'))) 0 0
             (s'\<lparr>stopping := True, samples_remaining := samples_remaining s' - 1\<rparr>))\<lparr>stopped := True\<rparr>, ts)"
      unfolding af using a by (simp add: stop_armed)
    with st a True show ?thesis
      by (auto simp add: session_def s'_def setitimer_def)
  next
    case False
    with R have a: "samples_taken s' = samples_taken s + max (N - 1) 0"
      "stopped s'"
      unfolding s'_def by linarith+
    have "stop after s' = Some (s'\<lparr>stopping := True\<rparr>, after)"
      using a by (simp add: stop_stopped)
    with st a False show ?thesis
      by (auto simp add: session_def s'_def)
  qed
qed

text \<open>The budget at a few inputs. With the doubles 1.0 and 0.1 the quotient rounds up to
  10.0, above the floor of the exact quotient; with \<^verbatim>\<open>--duration 3600\<close> and the interval
  1e-320 the quotient overflows and \<^verbatim>\<open>int\<close> raises.\<close>

lemma budget_4_by_half: "budget (PyFloat 4) (1 / 2) = Inr 8"
  using budget_float [of "1 / 2" 4 8] round_double_8 by (simp add: py_int_def)

lemma budget_3_halves_by_half: "budget (PyFloat (3 / 2)) (1 / 2) = Inr 3"
  using budget_float [of "1 / 2" "3 / 2" 3] round_double_3 by (simp add: py_int_def)

lemma budget_int_4_by_half: "budget (PyInt 4) (1 / 2) = Inr 8"
  using round_double_4 round_double_8
  by (simp add: budget_def as_float_def float_div_def int_of_float_def py_int_def)

lemma budget_one_by_tenth: "budget (PyFloat 1) tenth = Inr 10 \<and> \<lfloor>1 / tenth\<rfloor> = 9"
proof -
  have "tenth \<noteq> 0" by (simp add: tenth_def)
  then have "budget (PyFloat 1) tenth = Inr (py_int 10)"
    using round_double_one_by_tenth by (rule budget_float)
  moreover have "\<lfloor>1 / tenth\<rfloor> = 9"
    by (simp add: tenth_def floor_rat_numeral)
  ultimately show ?thesis by (simp add: py_int_def)
qed

lemma budget_overflows: "budget (PyInt 3600) tiny = Inl OverflowError"
proof -
  have "tiny \<noteq> 0" by (simp add: tiny_def)
  with round_double_3600 round_double_overflow show ?thesis
    by (simp add: budget_def as_float_def float_div_def int_of_float_def)
qed

section \<open>Samples taken in a session\<close>

text \<open>
  C2 (as amended). Let \<open>N\<close> be the budget \<^verbatim>\<open>int(duration / interval)\<close> that
  \<^verbatim>\<open>start(duration)\<close> computes in double precision. A session \<^verbatim>\<open>start(duration)\<close>,
  profiled program, \<^verbatim>\<open>stop()\<close> returns whenever a signal is still to come or the budget
  is already exhausted, and it adds to \<^verbatim>\<open>samples_taken\<close> the number of signals delivered
  before \<^verbatim>\<open>stop()\<close>, capped at \<open>max (N - 1) 0\<close>. So the count grows by at most
  \<open>max (N - 1) 0\<close>, hence by less than \<open>N + 1\<close> when \<open>N \<ge> 0\<close>, and by exactly
  \<open>max (N - 1) 0\<close> when the program runs for the full duration: the tick that brings
  the budget to zero captures nothing.
\<close>

theorem session_samples_taken:
  assumes "budget duration (interval s) = Inr N"
    and "after \<noteq> [] \<or> max N 1 \<le> int (length during)"
  shows "\<exists>s2. session duration during after s = Inr (Some s2) \<and>
           samples_taken s2 = samples_taken s + min (int (length during)) (max (N - 1) 0) \<and>
           samples_taken s2 \<le> samples_taken s + max (N - 1) 0 \<and>
           (max (N - 1) 0 \<le> int (length during) \<longrightarrow>
              samples_taken s2 = samples_taken s + max (N - 1) 0) \<and>
           (0 \<le> N \<longrightarrow> samples_taken s2 < samples_taken s + N + 1)"
proof -
  from session_samples [OF assms]
  obtain s2 where a: "session duration during after s = Inr (Some s2)"
    and b: "samples_taken s2 = samples_taken s + min (int (length during)) (max (N - 1) 0)"
    by blast
  from b have c: "samples_taken s2 \<le> samples_taken s + max (N - 1) 0"
    by linarith
  from b have d: "max (N - 1) 0 \<le> int (length during) \<longrightarrow>
      samples_taken s2 = samples_taken s + max (N - 1) 0"
    by linarith
  from c have e: "0 \<le> N \<longrightarrow> samples_taken s2 < samples_taken s + N + 1"
    by linarith
  from a b c d e show ?thesis by blast
qed

theorem session_samples_taken_witness:
  "budget (PyInt 4) (interval collector0) = Inr 8 \<and> [tick_at 3] \<noteq> [] \<and>
   (\<exists>s2. session (PyInt 4) [tick_at 3, tick_at 4] [tick_at 3] collector0 = Inr (Some s2) \<and>
      samples_taken s2 = 2) \<and>
   max (8 - 1) 0 \<le> int (length (replicate 9 (tick_at 3))) \<and>
   (\<exists>s2. session (PyInt 4) (replicate 9 (tick_at 3)) [] collector0 = Inr (Some s2) \<and>
      samples_taken s2 = 7)"
proof -
  have b: "budget (PyInt 4) (interval collector0) = Inr 8"
    using budget_int_4_by_half by (simp add: collector0_def)
  from session_samples_taken [OF b, of "[tick_at 3]" "[tick_at 3, tick_at 4]"]
  have x: "\<exists>s2. session (PyInt 4) [tick_at 3, tick_at 4] [tick_at 3] collector0 = Inr (Some s2) \<and>
      samples_taken s2 = 2"
    by (auto simp add: collector0_def)
  from session_samples_taken [OF b, of "[]" "replicate 9 (tick_at 3)"]
  have y: "\<exists>s2. session (PyInt 4) (replicate 9 (tick_at 3)) [] collector0 = Inr (Some s2) \<and>
      samples_taken s2 = 7"
    by (auto simp add: collector0_def)
  from b x y show ?thesis by simp
qed

text \<open>
  C2 as stated fails: with \<open>D = 4\<close> and \<open>I = 1/2\<close> (both exact doubles) the budget is
  8; eight signals arrive while the program runs, \<^verbatim>\<open>stop()\<close> is called after the timer
  has stopped itself, and 7 samples have been taken, not \<open>floor (D / I) + 1 = 9\<close>.
\<close>

theorem session_full_duration_counterexample:
  "map_sum id (map_option samples_taken)
     (session (PyInt 4) (replicate 8 (tick_at 3)) [] collector0) = Inr (Some 7) \<and>
   \<lfloor>(4::rat) / interval collector0\<rfloor> + 1 = 9"
proof -
  have b: "budget (PyInt 4) (interval collector0) = Inr 8"
    using budget_int_4_by_half by (simp add: collector0_def)
  from session_samples [OF b, of "[]" "replicate 8 (tick_at 3)"]
  show ?thesis
    by (auto simp add: collector0_def)
qed

section \<open>The terminal tick\<close>

lemma reachable_stopped:
  "reachable s \<Longrightarrow> stopped s \<Longrightarrow> \<not> armed s \<and> (samples_remaining s \<le> 0 \<or> stopping s)"
proof (induction rule: reachable.induct)
  case (constructed timers i m s)
  then show ?case
    by (auto simp add: Collector_init_def reset_def split: option.splits)
next
  case (after_reset s)
  then show ?case by (simp add: reset_def)
next
  case (after_start s d s')
  then show ?case
    by (auto simp add: start_def Let_def setitimer_def split: sum.splits prod.splits)
next
  case (after_failed_start s d e s')
  then show ?case
    by (auto simp add: start_def Let_def setitimer_def split: sum.splits prod.splits)
next
  case (stop_requested s)
  then show ?case by (simp add: armed_def)
next
  case (after_handler s t)
  show ?case
  proof (cases "samples_remaining s - 1 \<le> 0 \<or> stopping s")
    case True
    then show ?thesis
      by (auto simp add: handler_terminal armed_def setitimer_def)
  next
    case False
    with after_handler show ?thesis
      by (auto simp add: handler_capture armed_def)
  qed
qed

lemma reachable_collector0: "reachable collector0"
proof -
  have "Collector_init no_timers (1 / 2) ''prof'' = Inr collector0"
    by (simp add: Collector_init_def mode_of_name_def reset_def collector0_def)
  then show ?thesis by (rule reachable.constructed)
qed

lemma reachable_running0: "reachable running0"
proof -
  have "budget (PyFloat (3 / 2)) (interval collector0) = Inr 3"
    using budget_3_halves_by_half by (simp add: collector0_def)
  then have "start (PyFloat (3 / 2)) collector0 = Inr running0"
    by (simp add: start_ok collector0_def running0_def setitimer_def)
  with reachable_collector0 show ?thesis by (rule reachable.after_start)
qed

text \<open>
  C4. On a tick where the decremented \<^verbatim>\<open>samples_remaining\<close> is at most 0, or
  \<^verbatim>\<open>stopping\<close> is set, the handler disarms the timer, then sets \<^verbatim>\<open>stopped\<close>, and
  returns with the store and \<^verbatim>\<open>samples_taken\<close> as they were. In every reachable state
  where \<^verbatim>\<open>stopped\<close> is set the timer is disarmed, and a further run of the handler
  appends nothing to the store.
\<close>

theorem handler_terminal_tick:
  "(samples_remaining s - 1 \<le> 0 \<or> stopping s \<longrightarrow>
      handler t s =
        (setitimer (fst (MODES (mode s))) 0 0
           (s\<lparr>samples_remaining := samples_remaining s - 1\<rparr>))\<lparr>stopped := True\<rparr> \<and>
      \<not> armed (handler t s) \<and> stopped (handler t s) \<and>
      stacks (handler t s) = stacks s \<and> samples_taken (handler t s) = samples_taken s) \<and>
   (reachable s \<and> stopped s \<longrightarrow>
      \<not> armed s \<and> stacks (handler t s) = stacks s \<and> stopped (handler t s))"
proof (intro conjI impI)
  assume c: "samples_remaining s - 1 \<le> 0 \<or> stopping s"
  show h: "handler t s =
        (setitimer (fst (MODES (mode s))) 0 0
           (s\<lparr>samples_remaining := samples_remaining s - 1\<rparr>))\<lparr>stopped := True\<rparr>"
    using c by (rule handler_terminal)
  show "\<not> armed (handler t s)" "stopped (handler t s)" "stacks (handler t s) = stacks s"
    "samples_taken (handler t s) = samples_taken s"
    unfolding h by (simp_all add: armed_def setitimer_def)
next
  assume r: "reachable s \<and> stopped s"
  then have i: "\<not> armed s \<and> (samples_remaining s \<le> 0 \<or> stopping s)"
    by (simp add: reachable_stopped)
  then show "\<not> armed s" by simp
  from i have "samples_remaining s - 1 \<le> 0 \<or> stopping s" by auto
  then have h: "handler t s =
        (setitimer (fst (MODES (mode s))) 0 0
           (s\<lparr>samples_remaining := samples_remaining s - 1\<rparr>))\<lparr>stopped := True\<rparr>"
    by (rule handler_terminal)
  show "stacks (handler t s) = stacks s" "stopped (handler t s)"
    unfolding h by (simp_all add: setitimer_def)
qed

theorem handler_terminal_tick_witness:
  "(samples_remaining stopped0 - 1 \<le> 0 \<or> stopping stopped0) \<and>
   reachable stopped0 \<and> stopped stopped0 \<and> \<not> armed stopped0 \<and>
   stacks (handler (tick_at 5) stopped0) = stacks stopped0 \<and>
   samples_taken (handler (tick_at 5) stopped0) = samples_taken stopped0"
proof -
  have r: "reachable stopped0"
    unfolding stopped0_def
    by (intro reachable.after_handler reachable.stop_requested reachable_running0)
  have s: "stopping stopped0 \<and> stopped stopped0"
    by (simp add: stopped0_def handler_terminal setitimer_def running0_def collector0_def)
  with r handler_terminal_tick [of stopped0 "tick_at 5"] show ?thesis
    by (simp add: setitimer_def)
qed

section \<open>Starting while running\<close>

text \<open>
  C6 (as amended). \<^verbatim>\<open>start(duration)\<close> behaves the same in every state, Running
  included. When \<^verbatim>\<open>int(duration / interval)\<close> yields \<open>n\<close> it returns normally: it clears
  both flags, sets \<^verbatim>\<open>samples_remaining\<close> to \<open>n\<close> and arms the timer of the collector's
  mode with value and period \<^verbatim>\<open>interval\<close>. When that expression raises (a zero interval,
  or a quotient or an int too large for a double) \<^verbatim>\<open>start\<close> raises the same error with
  both flags cleared; it has no other error, none for a collector that is already
  running. For a float duration \<open>D\<close> and a nonzero interval \<open>I\<close>, \<open>n\<close> is the double
  nearest to \<open>D / I\<close>, truncated towards zero.
\<close>

theorem start_sets_budget_and_arms:
  "(budget duration (interval s) = Inr n \<longrightarrow>
      (\<exists>s'. start duration s = Inr s' \<and> samples_remaining s' = n \<and> armed s' \<and>
            itimers s' (fst (MODES (mode s))) = (interval s, interval s) \<and>
            \<not> stopping s' \<and> \<not> stopped s')) \<and>
   (budget duration (interval s) = Inl e \<longrightarrow>
      start duration s = Inl (e, s\<lparr>stopping := False, stopped := False\<rparr>) \<and>
      (e = ZeroDivisionError \<or> e = OverflowError)) \<and>
   (interval s \<noteq> 0 \<and> round_double (D / interval s) = Finite q \<longrightarrow>
      budget (PyFloat D) (interval s) = Inr (py_int q))"
proof (intro conjI impI)
  assume b: "budget duration (interval s) = Inr n"
  then have "interval s \<noteq> 0" by (rule budget_nonzero)
  with b show "\<exists>s'. start duration s = Inr s' \<and> samples_remaining s' = n \<and> armed s' \<and>
            itimers s' (fst (MODES (mode s))) = (interval s, interval s) \<and>
            \<not> stopping s' \<and> \<not> stopped s'"
    by (simp add: start_ok armed_def setitimer_def)
next
  assume b: "budget duration (interval s) = Inl e"
  then show "start duration s = Inl (e, s\<lparr>stopping := False, stopped := False\<rparr>)"
    by (rule start_raises)
  from b show "e = ZeroDivisionError \<or> e = OverflowError"
    by (auto simp add: budget_def as_float_def float_div_def int_of_float_def
        split: number.splits pyfloat.splits sum.splits if_splits)
next
  assume "interval s \<noteq> 0 \<and> round_double (D / interval s) = Finite q"
  then show "budget (PyFloat D) (interval s) = Inr (py_int q)"
    by (simp add: budget_float)
qed

theorem start_sets_budget_and_arms_witness:
  "Running running0 \<and> budget (PyFloat 4) (interval running0) = Inr 8 \<and>
   (\<exists>s'. start (PyFloat 4) running0 = Inr s' \<and> samples_remaining s' = 8 \<and> armed s') \<and>
   budget (PyFloat 4) (interval unset0) = Inl ZeroDivisionError \<and>
   isl (start (PyFloat 4) unset0) \<and>
   interval running0 \<noteq> 0 \<and> round_double (4 / interval running0) = Finite 8 \<and>
   py_int 8 = 8"
proof -
  have r: "Running running0"
    by (simp add: running0_def collector0_def Running_def armed_def no_timers_def)
  have i: "interval running0 = 1 / 2" "interval unset0 = 0"
    by (simp_all add: running0_def unset0_def collector0_def)
  have b: "budget (PyFloat 4) (interval running0) = Inr 8"
    using budget_4_by_half by (simp add: i)
  have z: "budget (PyFloat 4) (interval unset0) = Inl ZeroDivisionError"
    by (simp add: i budget_zero)
  have q: "interval running0 \<noteq> 0 \<and> round_double (4 / interval running0) = Finite 8"
    using round_double_8 by (simp add: i)
  from b start_sets_budget_and_arms [of "PyFloat 4" running0 8 ZeroDivisionError 4 8]
  have x: "\<exists>s'. start (PyFloat 4) running0 = Inr s' \<and> samples_remaining s' = 8 \<and> armed s'"
    by blast
  from z start_sets_budget_and_arms [of "PyFloat 4" unset0 8 ZeroDivisionError 4 8]
  have "start (PyFloat 4) unset0 =
      Inl (ZeroDivisionError, unset0\<lparr>stopping := False, stopped := False\<rparr>)"
    by blast
  then have y: "isl (start (PyFloat 4) unset0)" by simp
  have p: "py_int 8 = 8" by (simp add: py_int_def)
  from r b x z y q p show ?thesis by blast
qed

text \<open>
  C6 as stated fails: on a Running collector \<^verbatim>\<open>start(4.0)\<close> does not fail; it returns
  with the budget replaced by 8 and the timer armed.
\<close>

theorem start_while_running_counterexample:
  "Running running0 \<and> \<not> isl (start (PyFloat 4) running0) \<and>
   samples_remaining (projr (start (PyFloat 4) running0)) = 8 \<and>
   armed (projr (start (PyFloat 4) running0))"
proof -
  have "budget (PyFloat 4) (interval running0) = Inr 8"
    using budget_4_by_half by (simp add: running0_def collector0_def)
  then show ?thesis
    by (simp add: Running_def running0_def collector0_def armed_def start_ok setitimer_def
        no_timers_def)
qed

section \<open>Stopping twice\<close>

lemma handler_stopping: "stopping (handler t s) = stopping s"
  by (cases "samples_remaining s - 1 \<le> 0 \<or> stopping s")
     (simp_all add: handler_terminal handler_capture setitimer_def)

lemma wait_returns:
  "wait ts s = Some (s', rest) \<Longrightarrow> stopped s' \<and> (stopping s \<longrightarrow> stopping s')"
  by (induction ts s rule: wait.induct) (auto simp add: handler_stopping split: if_splits)

lemma handlers_after_stop:
  "stopping s \<Longrightarrow> stacks (foldl (\<lambda>a t. handler t a) s ts) = stacks s \<and>
     samples_taken (foldl (\<lambda>a t. handler t a) s ts) = samples_taken s"
proof (induction ts arbitrary: s)
  case Nil
  then show ?case by simp
next
  case (Cons t ts)
  from Cons.prems have "stopping (handler t s)"
    by (simp add: handler_stopping)
  from Cons.IH [OF this] Cons.prems show ?case
    by (simp add: handler_terminal setitimer_def)
qed

text \<open>
  C7. Once a call of \<^verbatim>\<open>stop()\<close> has returned, a second call returns at once, whatever
  signals are still to come, and leaves the collector exactly as it was: \<^verbatim>\<open>stopped\<close>
  and \<^verbatim>\<open>stopping\<close> are set and \<^verbatim>\<open>samples_remaining\<close> is unchanged. Any further runs
  of the handler add no sample to the store and do not count one.
\<close>

theorem stop_idempotent:
  assumes "stop ts s = Some (s', rest)"
  shows "stop ts' s' = Some (s', ts') \<and> stopped s' \<and> stopping s' \<and>
         stacks (foldl (\<lambda>a t. handler t a) s' later) = stacks s' \<and>
         samples_taken (foldl (\<lambda>a t. handler t a) s' later) = samples_taken s'"
proof -
  from assms have w: "stopped s' \<and> stopping s'"
    using wait_returns [of ts "s\<lparr>stopping := True\<rparr>" s' rest] by (simp add: stop_def)
  then have "s'\<lparr>stopping := True\<rparr> = s'" by simp
  with w have "stop ts' s' = Some (s', ts')"
    by (simp add: stop_stopped)
  with w handlers_after_stop [of s' later] show ?thesis by simp
qed

theorem stop_idempotent_witness:
  "stop [tick_at 3] running0 = Some (stopped0, []) \<and>
   stop [tick_at 4] stopped0 = Some (stopped0, [tick_at 4]) \<and> stopped stopped0 \<and>
   samples_remaining stopped0 = 2 \<and>
   stacks (foldl (\<lambda>a t. handler t a) stopped0 [tick_at 4, tick_at 5]) = stacks stopped0"
proof -
  have a: "stop [tick_at 3] running0 = Some (stopped0, [])"
    by (simp add: stop_def stopped0_def running0_def collector0_def armed_def handler_terminal
        setitimer_def)
  have b: "samples_remaining stopped0 = 2"
    by (simp add: stopped0_def handler_terminal setitimer_def running0_def collector0_def)
  from a b stop_idempotent [OF a, of "[tick_at 4]" "[tick_at 4, tick_at 5]"] show ?thesis
    by simp
qed

section \<open>Clearing the store\<close>

lemma wait_prefix: "wait ts s = Some (s', rest) \<Longrightarrow> prefix (stacks s) (stacks s')"
proof (induction ts s rule: wait.induct)
  case (1 s)
  then show ?case by (auto split: if_splits)
next
  case (2 t ts s)
  show ?case
  proof (cases "stopped s")
    case True
    with 2 show ?thesis by auto
  next
    case False
    with "2.prems" have a: "armed s" and w: "wait ts (handler t s) = Some (s', rest)"
      by (auto split: if_splits)
    from "2.IH" [OF False a w] have "prefix (stacks (handler t s)) (stacks s')" .
    moreover have "prefix (stacks s) (stacks (handler t s))"
      by (cases "samples_remaining s - 1 \<le> 0 \<or> stopping s")
         (simp_all add: handler_terminal handler_capture setitimer_def)
    ultimately show ?thesis by (rule prefix_order.trans[rotated])
  qed
qed

text \<open>
  C8. \<^verbatim>\<open>reset()\<close> empties the store and sets \<^verbatim>\<open>samples_remaining\<close>,
  \<^verbatim>\<open>stopping\<close>, \<^verbatim>\<open>stopped\<close>, \<^verbatim>\<open>samples_taken\<close> and \<^verbatim>\<open>sample_time\<close> to their zero
  values. No other operation removes a sample: \<^verbatim>\<open>start()\<close> leaves the store as it is,
  whether it returns or raises, and the handler and \<^verbatim>\<open>stop()\<close> only extend it.
\<close>

theorem reset_clears_store:
  "reset s = s\<lparr>stacks := [], samples_remaining := 0, stopping := False, stopped := False,
               samples_taken := 0, sample_time := 0\<rparr> \<and>
   stacks (reset s) = [] \<and> samples_remaining (reset s) = 0 \<and> \<not> stopping (reset s) \<and>
   \<not> stopped (reset s) \<and> samples_taken (reset s) = 0 \<and> sample_time (reset s) = 0 \<and>
   stacks (case start d s of Inl (e, s') \<Rightarrow> s' | Inr s' \<Rightarrow> s') = stacks s \<and>
   prefix (stacks s) (stacks (handler t s)) \<and>
   (stop ts s = Some (s', rest) \<longrightarrow> prefix (stacks s) (stacks s'))"
proof -
  have "prefix (stacks s) (stacks (handler t s))"
    by (cases "samples_remaining s - 1 \<le> 0 \<or> stopping s")
       (simp_all add: handler_terminal handler_capture setitimer_def)
  moreover have "stop ts s = Some (s', rest) \<longrightarrow> prefix (stacks s) (stacks s')"
    using wait_prefix [of ts "s\<lparr>stopping := True\<rparr>" s' rest] by (simp add: stop_def)
  moreover have "stacks (case start d s of Inl (e, s') \<Rightarrow> s' | Inr s' \<Rightarrow> s') = stacks s"
    by (simp add: start_def Let_def setitimer_def split: sum.splits prod.splits)
  ultimately show ?thesis by (simp add: reset_def)
qed

theorem reset_clears_store_witness:
  "stop [tick_at 3] running0 = Some (stopped0, []) \<and>
   prefix (stacks running0) (stacks stopped0) \<and> stacks (reset sampled0) = [] \<and>
   stacks (case start (PyInt 4) sampled0 of Inl (e, s') \<Rightarrow> s' | Inr s' \<Rightarrow> s') = [stackA, stackB]"
proof -
  have a: "stop [tick_at 3] running0 = Some (stopped0, [])"
    by (simp add: stop_def stopped0_def running0_def collector0_def armed_def handler_terminal
        setitimer_def)
  have b: "stacks sampled0 = [stackA, stackB]"
    by (simp add: sampled0_def)
  from a b reset_clears_store [of sampled0 "PyInt 4"]
    reset_clears_store [of running0 "PyInt 4" "tick_at 3" "[tick_at 3]" stopped0 "[]"]
  show ?thesis by simp
qed

section \<open>Line numbers of captured frames\<close>

lemma same_code_walk: "same_code f g \<Longrightarrow> walk f = walk g"
  by (induction f g rule: same_code.induct) simp_all

lemma same_code_captures:
  assumes "list_all2 (\<lambda>item item'. fst item = fst item' \<and> same_code (Some (snd item)) (Some (snd item'))) xs ys"
    and "same_code cf cf'"
  shows "map (\<lambda>item. walk (if fst item = tid then cf else Some (snd item))) xs =
         map (\<lambda>item. walk (if fst item = tid then cf' else Some (snd item))) ys"
  using assms(1)
proof (induction rule: list_all2_induct)
  case Nil
  then show ?case by simp
next
  case (Cons x xs y ys)
  with assms(2) show ?case
    by (auto dest: same_code_walk)
qed

text \<open>
  C10. The line component of every captured frame is \<^verbatim>\<open>co_firstlineno\<close> of the frame's
  code object; \<^verbatim>\<open>f_lineno\<close> is not read. Hence two frame chains running the same
  functions are captured as the same stack, and two signals that differ only in the lines
  being executed leave the collector in the same state.
\<close>

theorem frame_line_is_first_line:
  "walk (Some (PyFrame c l back)) = (co_filename c, co_firstlineno c, co_name c) # walk back \<and>
   walk (Some (PyFrame c l' back)) = walk (Some (PyFrame c l back)) \<and>
   (same_code f g \<longrightarrow> walk f = walk g) \<and>
   (same_code_tick t t' \<longrightarrow> handler t s = handler t' s)"
proof -
  have "handler t s = handler t' s" if h: "same_code_tick t t'"
  proof -
    from h have m: "map (\<lambda>item. walk (if fst item = current_tid t then current_frame t else Some (snd item))) (current_frames t) =
         map (\<lambda>item. walk (if fst item = current_tid t then current_frame t' else Some (snd item))) (current_frames t')"
      by (intro same_code_captures) (simp_all add: same_code_tick_def)
    from h have e: "t_start t = t_start t'" "t_end t = t_end t'" "current_tid t = current_tid t'"
      by (simp_all add: same_code_tick_def)
    show ?thesis
      using m unfolding handler_def Let_def foldl_capture e by simp
  qed
  then show ?thesis
    by (simp add: same_code_walk)
qed

theorem frame_line_is_first_line_witness:
  "same_code (Some (PyFrame codeA 3 None)) (Some (PyFrame codeA 5 None)) \<and>
   walk (Some (PyFrame codeA 3 None)) = walk (Some (PyFrame codeA 5 None)) \<and>
   same_code_tick (tick_at 3) (tick_at 5) \<and>
   handler (tick_at 3) running0 = handler (tick_at 5) running0 \<and>
   stacks (handler (tick_at 5) running0) = [[(''a.py'', 1, ''f'')]]"
proof -
  have a: "same_code (Some (PyFrame codeA 3 None)) (Some (PyFrame codeA 5 None))"
    by simp
  have b: "same_code_tick (tick_at 3) (tick_at 5)"
    by (simp add: same_code_tick_def tick_at_def)
  have c: "stacks (handler (tick_at 5) running0) = [[(''a.py'', 1, ''f'')]]"
    by (simp add: handler_capture running0_def collector0_def tick_at_def codeA_def)
  from a b c
    frame_line_is_first_line [of codeA 3 None 5 "Some (PyFrame codeA 3 None)"
      "Some (PyFrame codeA 5 None)" "tick_at 3" "tick_at 5" running0]
  show ?thesis by simp
qed

section \<open>Aggregation\<close>

lemma sum_incr: "sum_list (map snd (incr k d)) = sum_list (map snd d) + 1"
  by (induction d) auto

lemma sum_foldl_incr:
  "sum_list (map snd (foldl (\<lambda>d k. incr k d) d0 ks)) = sum_list (map snd d0) + int (length ks)"
  by (induction ks arbitrary: d0) (auto simp: sum_incr)

lemma count_of_incr: "count_of (incr k d) k' = count_of d k' + (if k' = k then 1 else 0)"
  by (induction d) (auto simp add: count_of_def)

lemma keys_incr: "fst ` set (incr k d) = insert k (fst ` set d)"
proof (induction d)
  case Nil
  then show ?case by simp
next
  case (Cons a d)
  obtain k' c where a: "a = (k', c)" by (cases a)
  show ?case
  proof (cases "k = k'")
    case True
    then show ?thesis by (simp add: a)
  next
    case False
    with Cons show ?thesis by (simp add: a insert_commute)
  qed
qed

lemma distinct_incr: "distinct (map fst d) \<Longrightarrow> distinct (map fst (incr k d))"
proof (induction d)
  case Nil
  then show ?case by simp
next
  case (Cons a d)
  then show ?case
    using keys_incr [of k d] by (cases a) auto
qed

lemma foldl_incr:
  "distinct (map fst d0) \<Longrightarrow>
   distinct (map fst (foldl (\<lambda>d k. incr k d) d0 ks)) \<and>
   fst ` set (foldl (\<lambda>d k. incr k d) d0 ks) = fst ` set d0 \<union> set ks \<and>
   count_of (foldl (\<lambda>d k. incr k d) d0 ks) k' = count_of d0 k' + int (count_list ks k')"
proof (induction ks arbitrary: d0)
  case Nil
  then show ?case by simp
next
  case (Cons k ks)
  from Cons.prems have "distinct (map fst (incr k d0))"
    by (rule distinct_incr)
  from Cons.IH [OF this] show ?case
    by (auto simp add: keys_incr count_of_incr)
qed

text \<open>
  C5. The aggregation of \<^verbatim>\<open>PlopFormatter.format\<close>, before the sort and the
  truncation, has one entry for each distinct stack of the store (stacks compared as
  sequences of frame tuples), the entry of a stack counts its occurrences in the store,
  and the counts sum to the length of the store.
\<close>

theorem aggregate_counts:
  "sum_list (map snd (aggregate store)) = int (length store) \<and>
   distinct (map fst (aggregate store)) \<and>
   fst ` set (aggregate store) = set store \<and>
   count_of (aggregate store) stack = int (count_list store stack)"
  using foldl_incr [of "[]" store stack] sum_foldl_incr [of "[]" store]
  by (simp add: aggregate_def count_of_def)

section \<open>The table formatter\<close>

lemma PlopFormatter_init_max_stacks: "max_stacks (PlopFormatter_init k) = 50"
  by (simp add: PlopFormatter_init_def)

lemma py_slice_to_length: "0 \<le> k \<Longrightarrow> length (py_slice_to k xs) \<le> nat k"
  by (simp add: py_slice_to_def)

lemma PlopFormatter_format_length:
  "0 \<le> max_stacks self \<Longrightarrow> length (PlopFormatter_format self s) \<le> nat (max_stacks self)"
  by (simp add: PlopFormatter_format_def py_slice_to_length)

lemma PlopFormatter_format_descending:
  "sorted (map (\<lambda>kv. - snd kv) (PlopFormatter_format self s))"
proof -
  have "sorted (map (\<lambda>kv. - snd kv) (sort_key (\<lambda>kv. - snd kv) (aggregate (stacks s))))"
    by (rule sorted_sort_key)
  then show ?thesis
    by (simp add: PlopFormatter_format_def py_slice_to_def take_map [symmetric] sorted_wrt_take)
qed

text \<open>
  C3 (the code at the failing input). A table formatter constructed with
  \<^verbatim>\<open>max_stacks=1\<close> renders both entries of a store of two distinct stacks: the
  constructor keeps 50, not its argument.
\<close>

theorem table_ignores_max_stacks:
  "PlopFormatter_format (PlopFormatter_init 1) (with_stacks [stackA, stackB]) =
     [(stackA, 1), (stackB, 1)] \<and>
   length (PlopFormatter_format (PlopFormatter_init 1) (with_stacks [stackA, stackB])) = 2"
  by (simp add: PlopFormatter_format_def PlopFormatter_init_def with_stacks_def collector0_def
      aggregate_def py_slice_to_def stackA_def stackB_def)

section \<open>The folded-stack formatter\<close>

lemma flame_step_same:
  "Some (format_flame x) = prev \<Longrightarrow> flame_step (acc, prev, n) x = (acc, prev, n + 1)"
  by (simp add: flame_step_def)

lemma flame_step_new:
  "Some (format_flame x) \<noteq> prev \<Longrightarrow>
   flame_step (acc, prev, n) x = (acc @ flame_line prev n, Some (format_flame x), 1)"
  by (simp add: flame_step_def)

lemma flame_loop_output:
  "foldl flame_step (acc, prev, n) xs = (res, p', n') \<Longrightarrow> prefix acc res"
proof (induction xs arbitrary: acc prev n)
  case Nil
  then show ?case by simp
next
  case (Cons x xs)
  show ?case
  proof (cases "Some (format_flame x) = prev")
    case True
    with Cons.prems have "foldl flame_step (acc, prev, n + 1) xs = (res, p', n')"
      by (simp add: flame_step_same)
    then show ?thesis by (rule Cons.IH)
  next
    case False
    with Cons.prems have "foldl flame_step (acc @ flame_line prev n, Some (format_flame x), 1) xs
        = (res, p', n')"
      by (simp add: flame_step_new)
    then have "prefix (acc @ flame_line prev n) res" by (rule Cons.IH)
    then show ?thesis by (rule append_prefixD)
  qed
qed

lemma flamegraph_leading_line:
  "prefix ''None 1\<newline>'' (FlamegraphFormatter_format s)"
proof (cases "stacks s")
  case Nil
  then show ?thesis
    by (simp add: FlamegraphFormatter_format_def flame_line_def py_str_int_def decimal.simps digit_def)
next
  case (Cons x xs)
  obtain out p n where r: "foldl flame_step (flame_line None 1, Some (format_flame x), 1) xs = (out, p, n)"
    by (cases "foldl flame_step (flame_line None 1, Some (format_flame x), 1) xs") auto
  then have "prefix (flame_line None 1) out" by (rule flame_loop_output)
  then have "prefix (flame_line None 1) (out @ flame_line p n)" by (rule prefix_prefix)
  moreover have "FlamegraphFormatter_format s = out @ flame_line p n"
    using r by (simp add: FlamegraphFormatter_format_def Cons flame_step_new)
  moreover have "flame_line None 1 = ''None 1\<newline>''"
    by (simp add: flame_line_def py_str_int_def decimal.simps digit_def)
  ultimately show ?thesis by simp
qed

text \<open>
  C1 (the code at the failing input). For the store \<open>[A, A, A, B, A]\<close> the
  folded-stack output begins with a line \<^verbatim>\<open>None 1\<close> for the initial value of
  \<^verbatim>\<open>previous\<close>, before the three lines of the runs.
\<close>

theorem folded_output_of_AAABA:
  "FlamegraphFormatter_format (with_stacks [stackA, stackA, stackA, stackB, stackA]) =
     ''None 1\<newline>f (a.py:1) 3\<newline>g (a.py:7) 1\<newline>f (a.py:1) 1\<newline>''"
  by (simp add: FlamegraphFormatter_format_def with_stacks_def collector0_def flame_step_def
      flame_line_def format_flame_def format_frame_def stackA_def stackB_def py_str_int_def
      decimal.simps digit_def)

section \<open>Reporting\<close>

text \<open>
  C9. When \<^verbatim>\<open>samples_taken\<close> is 0 at the end of the session, \<^verbatim>\<open>main\<close> writes no
  file and prints only the message that no samples were collected; when it is positive,
  the formatter's output is written to the output file, the first message says the
  profile was saved, and the no-samples message is not printed.
\<close>

theorem main_report_samples:
  "(samples_taken s = 0 \<longrightarrow>
      written (main_report fmt filename to_syslog s) = [] \<and>
      printed (main_report fmt filename to_syslog s) =
        [(to_syslog, Line ''no samples collected; program was too fast'')]) \<and>
   (0 < samples_taken s \<longrightarrow>
      written (main_report fmt filename to_syslog s) = [(filename, format fmt s)] \<and>
      hd (printed (main_report fmt filename to_syslog s)) =
        (to_syslog, Line (''profile output saved to '' @ filename)) \<and>
      (to_syslog, Line ''no samples collected; program was too fast'')
        \<notin> set (printed (main_report fmt filename to_syslog s)))"
  by (simp add: main_report_def Let_def)

theorem main_report_samples_witness:
  "samples_taken collector0 = 0 \<and>
   written (main_report Flamegraph ''profiles/x.flame'' False collector0) = [] \<and>
   0 < samples_taken sampled0 \<and>
   written (main_report Flamegraph ''profiles/x.flame'' False sampled0) =
     [(''profiles/x.flame'', format Flamegraph sampled0)]"
  using main_report_samples [of collector0 Flamegraph "''profiles/x.flame''" False]
    main_report_samples [of sampled0 Flamegraph "''profiles/x.flame''" False]
  by (simp add: collector0_def sampled0_def)

end
